theory Spec2Isabelle
  imports Main "HOL-Library.Char_ord" "HOL-Library.List_Lexorder" "HOL-Library.AList"
begin

section \<open>Operations (client Lib/operations)\<close>

text \<open>
  The discriminated union \<^verbatim>\<open>Operation = InsertOperation | DeleteOperation\<close> over the
  shared base shape \<^verbatim>\<open>{id, userId, timestamp, position}\<close>. A JavaScript number that
  carries a position, a length or a timestamp is modelled as an unbounded \<open>int\<close>
  (negative values can arrive over the wire and are produced by the change detector);
  a JavaScript string is a list of code units, written \<open>string\<close>, and \<^verbatim>\<open><\<close> on two
  strings is the lexicographic order on the code units.
\<close>

datatype operation =
    is_Insert: Insert (op_id: string) (userId: string) (timestamp: int) (position: int) (op_text: string)
  | is_Delete: Delete (op_id: string) (userId: string) (timestamp: int) (position: int) (len: int)

text \<open>
  \<^verbatim>\<open>String.prototype.substring(start, end)\<close>: both indices are clamped to \<open>[0, length]\<close>
  and swapped when \<open>start > end\<close>; with one argument the end is the length.
\<close>

definition substring :: "string \<Rightarrow> int \<Rightarrow> int \<Rightarrow> string" where
  "substring s start end' =
     (let n = int (length s);
          finalStart = min (max start 0) n;
          finalEnd = min (max end' 0) n;
          from = min finalStart finalEnd;
          to = max finalStart finalEnd
      in take (nat (to - from)) (drop (nat from) s))"

definition substring_from :: "string \<Rightarrow> int \<Rightarrow> string" where
  "substring_from s start = substring s start (int (length s))"

text \<open>
  \<^verbatim>\<open>createInsertOperation\<close> and \<^verbatim>\<open>createDeleteOperation\<close>. The fresh identifier
  (\<^verbatim>\<open>generateOperationId()\<close>, built from the clock and a random number) and the clock
  reading \<^verbatim>\<open>Date.now()\<close> are inputs of the model.
\<close>

definition createInsertOperation :: "string \<Rightarrow> int \<Rightarrow> string \<Rightarrow> string \<Rightarrow> int \<Rightarrow> operation" where
  "createInsertOperation uid pos txt fresh now = Insert fresh uid now pos txt"

definition createDeleteOperation :: "string \<Rightarrow> int \<Rightarrow> int \<Rightarrow> string \<Rightarrow> int \<Rightarrow> operation" where
  "createDeleteOperation uid pos n fresh now = Delete fresh uid now pos n"

definition detectChange ::
  "string \<Rightarrow> string \<Rightarrow> int \<Rightarrow> string \<Rightarrow> string \<Rightarrow> int \<Rightarrow> operation option" where
  "detectChange oldText newText cursorPosition uid fresh now =
     (if oldText = newText then None
      else
        let oldLen = int (length oldText); newLen = int (length newText) in
        if newLen > oldLen then
          (let insertedLength = newLen - oldLen;
               pos = cursorPosition - insertedLength;
               insertedText = substring newText pos cursorPosition
           in Some (createInsertOperation uid pos insertedText fresh now))
        else if newLen < oldLen then
          (let deletedLength = oldLen - newLen;
               pos = cursorPosition
           in Some (createDeleteOperation uid pos deletedLength fresh now))
        else None)"

section \<open>The transformation engine (class OTEngine)\<close>

text \<open>
  The four private helpers are typed by variant and are reached only through
  \<^verbatim>\<open>transform\<close>, which dispatches on the two \<^verbatim>\<open>type\<close> tags; the object spread
  \<^verbatim>\<open>{...op1, position: v}\<close> copies every field of \<^verbatim>\<open>op1\<close> and replaces the named one.
  The last equation of each helper covers the argument shapes its type excludes.
\<close>

fun transformInsertInsert :: "operation \<Rightarrow> operation \<Rightarrow> operation" where
  "transformInsertInsert (Insert i1 u1 t1 p1 s1) (Insert i2 u2 t2 p2 s2) =
     (if p2 < p1 then Insert i1 u1 t1 (p1 + int (length s2)) s1
      else if p2 = p1 \<and> u2 < u1 then Insert i1 u1 t1 (p1 + int (length s2)) s1
      else Insert i1 u1 t1 p1 s1)"
| "transformInsertInsert op1 _ = op1"

fun transformInsertDelete :: "operation \<Rightarrow> operation \<Rightarrow> operation" where
  "transformInsertDelete (Insert i1 u1 t1 p1 s1) (Delete i2 u2 t2 p2 l2) =
     (if p2 + l2 \<le> p1 then Insert i1 u1 t1 (p1 - l2) s1
      else if p2 < p1 then Insert i1 u1 t1 p2 s1
      else Insert i1 u1 t1 p1 s1)"
| "transformInsertDelete op1 _ = op1"

fun transformDeleteInsert :: "operation \<Rightarrow> operation \<Rightarrow> operation" where
  "transformDeleteInsert (Delete i1 u1 t1 p1 l1) (Insert i2 u2 t2 p2 s2) =
     (if p2 \<le> p1 then Delete i1 u1 t1 (p1 + int (length s2)) l1
      else if p2 < p1 + l1 then Delete i1 u1 t1 p1 (l1 + int (length s2))
      else Delete i1 u1 t1 p1 l1)"
| "transformDeleteInsert op1 _ = op1"

fun transformDeleteDelete :: "operation \<Rightarrow> operation \<Rightarrow> operation" where
  "transformDeleteDelete (Delete i1 u1 t1 p1 l1) (Delete i2 u2 t2 p2 l2) =
     (if p2 + l2 \<le> p1 then Delete i1 u1 t1 (p1 - l2) l1
      else if p2 \<ge> p1 + l1 then Delete i1 u1 t1 p1 l1
      else if p2 \<le> p1 then
        (let overlap = min (p2 + l2 - p1) l1 in Delete i1 u1 t1 p2 (l1 - overlap))
      else
        (let overlap = min (p1 + l1 - p2) l2 in Delete i1 u1 t1 p1 (l1 - overlap)))"
| "transformDeleteDelete op1 _ = op1"

definition transform :: "operation \<Rightarrow> operation \<Rightarrow> operation" where
  "transform op1 op2 =
     (if is_Insert op1 \<and> is_Insert op2 then transformInsertInsert op1 op2
      else if is_Insert op1 \<and> is_Delete op2 then transformInsertDelete op1 op2
      else if is_Delete op1 \<and> is_Insert op2 then transformDeleteInsert op1 op2
      else if is_Delete op1 \<and> is_Delete op2 then transformDeleteDelete op1 op2
      else op1)"

definition applyInsert :: "string \<Rightarrow> operation \<Rightarrow> string" where
  "applyInsert txt opn =
     (let before = substring txt 0 (position opn);
          after = substring_from txt (position opn)
      in before @ op_text opn @ after)"

definition applyDelete :: "string \<Rightarrow> operation \<Rightarrow> string" where
  "applyDelete txt opn =
     (let before = substring txt 0 (position opn);
          after = substring_from txt (position opn + len opn)
      in before @ after)"

text \<open>\<^verbatim>\<open>OTEngine.apply\<close>; the name \<open>apply\<close> is taken in Isabelle.\<close>

definition apply_op :: "string \<Rightarrow> operation \<Rightarrow> string" where
  "apply_op txt opn = (if is_Insert opn then applyInsert txt opn else applyDelete txt opn)"

text \<open>The \<^verbatim>\<open>for ... of\<close> loop of \<^verbatim>\<open>transformAgainst\<close>, with the loop variable as accumulator.\<close>

fun transformAgainst :: "operation \<Rightarrow> operation list \<Rightarrow> operation" where
  "transformAgainst transformed [] = transformed"
| "transformAgainst transformed (otherOp # operations) =
     transformAgainst (transform transformed otherOp) operations"

fun compose :: "operation \<Rightarrow> operation \<Rightarrow> operation option" where
  "compose (Insert i1 u1 t1 p1 s1) (Insert i2 u2 t2 p2 s2) =
     (if p1 + int (length s1) = p2 \<and> u1 = u2 then Some (Insert i1 u1 t1 p1 (s1 @ s2)) else None)"
| "compose (Delete i1 u1 t1 p1 l1) (Delete i2 u2 t2 p2 l2) =
     (if p1 = p2 \<and> u1 = u2 then Some (Delete i1 u1 t1 p1 (l1 + l2)) else None)"
| "compose _ _ = None"

section \<open>The relay (server.js)\<close>

text \<open>
  The relay keeps the module-level map \<^verbatim>\<open>documents\<close> and the counter \<^verbatim>\<open>colorIndex\<close>;
  every connection closes over its own \<^verbatim>\<open>currentDocumentId\<close> and \<^verbatim>\<open>currentUser\<close>,
  both \<^verbatim>\<open>null\<close> at first. A JavaScript \<^verbatim>\<open>Map\<close> iterates in insertion order and
  \<^verbatim>\<open>set\<close> on a present key keeps its place, which is what \<open>AList.update\<close> does, so
  the roster is an association list. Each handler returns the new state and the
  list of messages it emits, each paired with the room \<^verbatim>\<open>io.to(...)\<close> addresses.
  An operation on the wire is one of the two variants of \<open>operation\<close>. The
  \<^verbatim>\<open>userName\<close> field of a \<^verbatim>\<open>join-document\<close> message is read by no handler
  (\<^verbatim>\<open>addUser\<close> takes the name from the handshake query). The model records the
  room a message is addressed to, not who is in it, so the rooms entered with
  \<^verbatim>\<open>socket.join\<close> are not part of the state.
\<close>

record user =
  user_id :: string
  name :: string
  color :: string
  cursor :: int

record logged_operation =
  logged :: operation
  serverVersion :: nat
  serverTimestamp :: int

record document =
  doc_id :: string
  content :: string
  version :: nat
  operations :: "logged_operation list"
  users :: "(string \<times> user) list"

record relay =
  documents :: "string \<rightharpoonup> document"
  colorIndex :: nat

record connection =
  currentDocumentId :: "string option"
  currentUser :: "user option"

record socket =
  socket_id :: string
  query_userName :: "string option"

datatype server_message =
    DocumentState string nat "user list"
  | OperationMsg operation nat
  | UserJoined user "user list"
  | UserLeft string "user list"
  | CursorUpdate string int

type_synonym emission = "string \<times> server_message"

datatype client_message =
    is_JoinDocument: JoinDocument string
  | OperationFrom operation
  | CursorPosition int
  | Disconnect

definition COLORS :: "string list" where
  "COLORS = [''#FF6B6B'', ''#4ECDC4'', ''#45B7D1'', ''#FFA07A'',
             ''#98D8C8'', ''#F7DC6F'', ''#BB8FCE'', ''#85C1E2'']"

definition initial_relay :: relay where
  "initial_relay = \<lparr>documents = Map.empty, colorIndex = 0\<rparr>"

definition initial_connection :: connection where
  "initial_connection = \<lparr>currentDocumentId = None, currentUser = None\<rparr>"

text \<open>Decimal digits of a number, for the template string \<^verbatim>\<open>`User ${n}`\<close>.\<close>

fun decimal :: "nat \<Rightarrow> string" where
  "decimal n =
     (if n < 10 then [char_of (48 + n)]
      else decimal (n div 10) @ [char_of (48 + n mod 10)])"

declare decimal.simps [simp del]

text \<open>
  \<^verbatim>\<open>if (currentDocumentId)\<close> tests truthiness: \<^verbatim>\<open>null\<close> and the empty string are both
  falsy.
\<close>

definition truthy :: "string option \<Rightarrow> bool" where
  "truthy v = (case v of None \<Rightarrow> False | Some d \<Rightarrow> d \<noteq> [])"

definition getDocument :: "(string \<rightharpoonup> document) \<Rightarrow> string \<Rightarrow> (string \<rightharpoonup> document) \<times> document" where
  "getDocument docs documentId =
     (case docs documentId of
        None \<Rightarrow>
          (let fresh = \<lparr>doc_id = documentId, content = [], version = 0,
                        operations = [], users = []\<rparr>
           in (docs(documentId \<mapsto> fresh), fresh))
      | Some doc \<Rightarrow> (docs, doc))"

text \<open>
  \<^verbatim>\<open>addUser\<close> returns the user object it stored; the model also returns the document
  as it is after the roster update, since the caller goes on reading the same object.
\<close>

definition addUser :: "relay \<Rightarrow> string \<Rightarrow> socket \<Rightarrow> relay \<times> user \<times> document" where
  "addUser s documentId sock =
     (let (docs, doc) = getDocument (documents s) documentId;
          usr = \<lparr>user_id = socket_id sock,
                 name = (if truthy (query_userName sock) then the (query_userName sock)
                         else ''User '' @ decimal (length (users doc) + 1)),
                 color = COLORS ! (colorIndex s mod length COLORS),
                 cursor = 0\<rparr>;
          doc' = doc\<lparr>users := AList.update (socket_id sock) usr (users doc)\<rparr>
      in (\<lparr>documents = docs(documentId \<mapsto> doc'), colorIndex = colorIndex s + 1\<rparr>, usr, doc'))"

definition removeUser :: "relay \<Rightarrow> string \<Rightarrow> string \<Rightarrow> relay" where
  "removeUser s documentId socketId =
     (case documents s documentId of
        None \<Rightarrow> s
      | Some doc \<Rightarrow>
          s\<lparr>documents := (documents s)(documentId \<mapsto> doc\<lparr>users := AList.delete socketId (users doc)\<rparr>)\<rparr>)"

definition broadcastToDocument ::
  "relay \<Rightarrow> string \<Rightarrow> server_message \<Rightarrow> string option \<Rightarrow> emission list" where
  "broadcastToDocument s documentId msg excludeSocketId =
     (case documents s documentId of
        None \<Rightarrow> []
      | Some doc \<Rightarrow>
          map (\<lambda>(socketId, _). (socketId, msg))
              (filter (\<lambda>(socketId, _). Some socketId \<noteq> excludeSocketId) (users doc)))"

definition on_join_document ::
  "socket \<Rightarrow> relay \<times> connection \<Rightarrow> string \<Rightarrow> (relay \<times> connection) \<times> emission list" where
  "on_join_document sock st documentId =
     (let (s, c) = st;
          s1 = (if truthy (currentDocumentId c)
                then removeUser s (the (currentDocumentId c)) (socket_id sock) else s);
          (docs, _) = getDocument (documents s1) documentId;
          (s2, usr, doc) = addUser (s1\<lparr>documents := docs\<rparr>) documentId sock;
          roster = map snd (users doc)
      in ((s2, \<lparr>currentDocumentId = Some documentId, currentUser = Some usr\<rparr>),
          (socket_id sock, DocumentState (content doc) (version doc) roster)
            # broadcastToDocument s2 documentId (UserJoined usr roster) (Some (socket_id sock))))"

text \<open>
  The operation handler rewrites the content in place with its own copy of the
  substring arithmetic, then counts and logs the operation unconditionally. The clock
  reading for \<^verbatim>\<open>serverTimestamp\<close> is an input.
\<close>

definition server_apply :: "string \<Rightarrow> operation \<Rightarrow> string" where
  "server_apply c opn =
     (if is_Insert opn then
        (let before = substring c 0 (position opn);
             after = substring_from c (position opn)
         in before @ op_text opn @ after)
      else if is_Delete opn then
        (let before = substring c 0 (position opn);
             after = substring_from c (position opn + len opn)
         in before @ after)
      else c)"

definition on_operation ::
  "socket \<Rightarrow> int \<Rightarrow> relay \<times> connection \<Rightarrow> operation \<Rightarrow> (relay \<times> connection) \<times> emission list" where
  "on_operation sock now st opn =
     (let (s, c) = st in
      if \<not> truthy (currentDocumentId c) then ((s, c), [])
      else
        let d = the (currentDocumentId c);
            (docs, doc) = getDocument (documents s) d;
            doc1 = doc\<lparr>content := server_apply (content doc) opn\<rparr>;
            doc2 = doc1\<lparr>version := version doc1 + 1\<rparr>;
            doc3 = doc2\<lparr>operations := operations doc2 @
                     [\<lparr>logged = opn, serverVersion = version doc2, serverTimestamp = now\<rparr>]\<rparr>;
            s' = s\<lparr>documents := docs(d \<mapsto> doc3)\<rparr>
        in ((s', c), broadcastToDocument s' d (OperationMsg opn (version doc3)) (Some (socket_id sock))))"

text \<open>
  The user object found in the roster is the one \<^verbatim>\<open>currentUser\<close> refers to, so the
  assignment to \<^verbatim>\<open>user.cursor\<close> shows through both.
\<close>

definition on_cursor_position ::
  "socket \<Rightarrow> relay \<times> connection \<Rightarrow> int \<Rightarrow> (relay \<times> connection) \<times> emission list" where
  "on_cursor_position sock st pos =
     (let (s, c) = st in
      if \<not> truthy (currentDocumentId c) \<or> currentUser c = None then ((s, c), [])
      else
        let d = the (currentDocumentId c);
            (docs, doc) = getDocument (documents s) d
        in case map_of (users doc) (socket_id sock) of
             None \<Rightarrow> ((s\<lparr>documents := docs\<rparr>, c), [])
           | Some usr \<Rightarrow>
               (let usr' = usr\<lparr>cursor := pos\<rparr>;
                    doc' = doc\<lparr>users := AList.update (socket_id sock) usr' (users doc)\<rparr>;
                    s' = s\<lparr>documents := docs(d \<mapsto> doc')\<rparr>
                in ((s', c\<lparr>currentUser := Some usr'\<rparr>),
                    broadcastToDocument s' d (CursorUpdate (socket_id sock) pos)
                      (Some (socket_id sock)))))"

definition on_disconnect ::
  "socket \<Rightarrow> relay \<times> connection \<Rightarrow> (relay \<times> connection) \<times> emission list" where
  "on_disconnect sock st =
     (let (s, c) = st in
      if \<not> truthy (currentDocumentId c) then ((s, c), [])
      else
        let d = the (currentDocumentId c);
            s1 = removeUser s d (socket_id sock);
            (docs, doc) = getDocument (documents s1) d;
            s2 = s1\<lparr>documents := docs\<rparr>
        in ((s2, c), broadcastToDocument s2 d (UserLeft (socket_id sock) (map snd (users doc))) None))"

text \<open>The four \<^verbatim>\<open>socket.on\<close> registrations as one dispatcher.\<close>

definition handle ::
  "socket \<Rightarrow> int \<Rightarrow> relay \<times> connection \<Rightarrow> client_message \<Rightarrow> (relay \<times> connection) \<times> emission list" where
  "handle sock now st msg =
     (case msg of
        JoinDocument documentId \<Rightarrow> on_join_document sock st documentId
      | OperationFrom opn \<Rightarrow> on_operation sock now st opn
      | CursorPosition pos \<Rightarrow> on_cursor_position sock st pos
      | Disconnect \<Rightarrow> on_disconnect sock st)"

section \<open>Notions of the specification\<close>

text \<open>
  The data model asks of an insert \<open>0 \<le> position \<le> length of the text\<close> and of a
  delete \<open>0 \<le> position\<close> and \<open>position + length \<le> length of the text\<close>. The
  predicate below is that, except that it also admits the zero-length delete, which
  \<^verbatim>\<open>transformDeleteDelete\<close> can produce.
\<close>

fun valid_on :: "string \<Rightarrow> operation \<Rightarrow> bool" where
  "valid_on s (Insert i u t p x) = (0 \<le> p \<and> p \<le> int (length s))"
| "valid_on s (Delete i u t p l) = (0 \<le> p \<and> 0 \<le> l \<and> p + l \<le> int (length s))"

fun well_formed :: "operation \<Rightarrow> bool" where
  "well_formed (Insert i u t p x) = (0 \<le> p)"
| "well_formed (Delete i u t p l) = (0 \<le> p \<and> 0 \<le> l)"

text \<open>
  The two situations in which the transformed pair does not commute: an insert strictly
  inside the range of the other operation's delete (one side moves the insert to the
  start of the range, the other widens the delete over the inserted text), and two
  inserts at one position under one user id (neither side moves).
\<close>

fun tp1_conflict :: "operation \<Rightarrow> operation \<Rightarrow> bool" where
  "tp1_conflict (Insert i u t p x) (Insert j v t' q y) = (p = q \<and> u = v)"
| "tp1_conflict (Insert i u t p x) (Delete j v t' q l) = (q < p \<and> p < q + l)"
| "tp1_conflict (Delete i u t p l) (Insert j v t' q y) = (p < q \<and> q < p + l)"
| "tp1_conflict (Delete i u t p l) (Delete j v t' q m) = False"

definition tp1 :: "string \<Rightarrow> operation \<Rightarrow> operation \<Rightarrow> bool" where
  "tp1 s a b \<longleftrightarrow>
     apply_op (apply_op s a) (transform b a) = apply_op (apply_op s b) (transform a b)"

text \<open>
  \<open>apply\<close> as section 4.1 of the specification words it, with its \<open>OutOfRange\<close>
  failure; it is compared with \<open>apply_op\<close>, which is the code.
\<close>

datatype error = OutOfRange

fun apply_spec :: "string \<Rightarrow> operation \<Rightarrow> error + string" where
  "apply_spec s (Insert i u t p x) =
     (if p > int (length s) then Inl OutOfRange
      else Inr (take (nat p) s @ x @ drop (nat p) s))"
| "apply_spec s (Delete i u t p l) =
     (if p + l > int (length s) then Inl OutOfRange
      else Inr (take (nat p) s @ drop (nat p + nat l) s))"

text \<open>
  \<open>submit\<close> as section 4.3 words its treatment of out-of-range indices: the position
  is clamped to \<open>[0, len]\<close> for an insert and to \<open>[0, len - length]\<close> for a delete,
  and a zero-length delete is dropped without advancing the version. The result is
  the content and the version the store would then hold.
\<close>

definition clamp :: "int \<Rightarrow> int \<Rightarrow> int \<Rightarrow> int" where
  "clamp lo hi v = max lo (min hi v)"

fun clamp_spec :: "string \<Rightarrow> operation \<Rightarrow> operation option" where
  "clamp_spec c (Insert i u t p x) = Some (Insert i u t (clamp 0 (int (length c)) p) x)"
| "clamp_spec c (Delete i u t p l) =
     (if l = 0 then None else Some (Delete i u t (clamp 0 (int (length c) - l) p) l))"

definition submit_spec :: "document \<Rightarrow> operation \<Rightarrow> string \<times> nat" where
  "submit_spec doc opn =
     (case clamp_spec (content doc) opn of
        None \<Rightarrow> (content doc, version doc)
      | Some opn' \<Rightarrow> (apply_op (content doc) opn', version doc + 1))"

text \<open>
  The invariant of the data model: the version counts the log, and replaying the log
  with \<^verbatim>\<open>OTEngine.apply\<close> from the empty string gives the content.
\<close>

definition doc_inv :: "document \<Rightarrow> bool" where
  "doc_inv doc \<longleftrightarrow>
     version doc = length (operations doc)
     \<and> foldl apply_op [] (map logged (operations doc)) = content doc"

definition relay_inv :: "relay \<Rightarrow> bool" where
  "relay_inv s \<longleftrightarrow> (\<forall>d doc. documents s d = Some doc \<longrightarrow> doc_inv doc)"

text \<open>
  A relay state for the examples: document \<open>''d''\<close> holds \<open>''abcdef''\<close> after one
  logged insert, with two members, and the connection \<open>''s1''\<close> has joined it.
\<close>

definition example_socket :: socket where
  "example_socket = \<lparr>socket_id = ''s1'', query_userName = None\<rparr>"

definition example_document :: document where
  "example_document =
     \<lparr>doc_id = ''d'', content = ''abcdef'', version = 1,
      operations = [\<lparr>logged = Insert ''o1'' ''s1'' 0 0 ''abcdef'',
                     serverVersion = 1, serverTimestamp = 0\<rparr>],
      users = [(''s1'', \<lparr>user_id = ''s1'', name = ''User 1'', color = ''#FF6B6B'', cursor = 0\<rparr>),
               (''s2'', \<lparr>user_id = ''s2'', name = ''User 2'', color = ''#4ECDC4'', cursor = 0\<rparr>)]\<rparr>"

definition example_relay :: relay where
  "example_relay = \<lparr>documents = [''d'' \<mapsto> example_document], colorIndex = 2\<rparr>"

definition example_connection :: connection where
  "example_connection =
     \<lparr>currentDocumentId = Some ''d'',
      currentUser = Some \<lparr>user_id = ''s1'', name = ''User 1'', color = ''#FF6B6B'', cursor = 0\<rparr>\<rparr>"

text \<open>What a state holds for a document: content, version and length of the log.\<close>

definition committed :: "relay \<times> connection \<Rightarrow> string \<Rightarrow> (string \<times> nat \<times> nat) option" where
  "committed st d =
     map_option (\<lambda>doc. (content doc, version doc, length (operations doc)))
       (documents (fst st) d)"

section \<open>The engine: basic facts\<close>

lemma substring_0: "substring s 0 p = take (nat p) s"
  by (auto simp: substring_def Let_def min_def max_def)

lemma substring_from_drop: "substring_from s p = drop (nat p) s"
  by (auto simp: substring_from_def substring_def Let_def min_def max_def)

lemma substring_slice:
  "0 \<le> a \<Longrightarrow> a \<le> b \<Longrightarrow> b \<le> int (length s) \<Longrightarrow>
   substring s a b = take (nat (b - a)) (drop (nat a) s)"
  by (auto simp: substring_def Let_def min_def max_def)

lemma apply_Insert: "apply_op s (Insert i u t p x) = take (nat p) s @ x @ drop (nat p) s"
  by (simp add: apply_op_def applyInsert_def substring_0 substring_from_drop)

lemma apply_Delete: "apply_op s (Delete i u t p l) = take (nat p) s @ drop (nat (p + l)) s"
  by (simp add: apply_op_def applyDelete_def substring_0 substring_from_drop)

lemma transform_II:
  "transform (Insert i u t p x) (Insert j v t' q y) =
   transformInsertInsert (Insert i u t p x) (Insert j v t' q y)"
  by (simp add: transform_def)

lemma transform_ID:
  "transform (Insert i u t p x) (Delete j v t' q l) =
   transformInsertDelete (Insert i u t p x) (Delete j v t' q l)"
  by (simp add: transform_def)

lemma transform_DI:
  "transform (Delete i u t p l) (Insert j v t' q y) =
   transformDeleteInsert (Delete i u t p l) (Insert j v t' q y)"
  by (simp add: transform_def)

lemma transform_DD:
  "transform (Delete i u t p l) (Delete j v t' q m) =
   transformDeleteDelete (Delete i u t p l) (Delete j v t' q m)"
  by (simp add: transform_def)

lemmas transform_cases = transform_II transform_ID transform_DI transform_DD

section \<open>Convergence of a transformed pair\<close>

lemma tp1_sym: "tp1 s a b \<Longrightarrow> tp1 s b a"
  by (simp add: tp1_def)

lemma tp1_insert_insert:
  assumes "p \<le> length s" "q \<le> length s" "p \<noteq> q \<or> u \<noteq> v"
  shows "tp1 s (Insert i u t (int p) x) (Insert j v t' (int q) y)"
  using assms unfolding tp1_def
  apply (simp add: transform_cases apply_Insert)
  apply (auto simp: nat_add_distrib min_def not_less drop_take)
  done

lemma tp1_insert_delete:
  assumes "p \<le> length s" "q + l \<le> length s" "\<not> (q < p \<and> p < q + l)"
  shows "tp1 s (Insert i u t (int p) x) (Delete j v t' (int q) (int l))"
proof (cases "q + l \<le> p \<and> p \<le> q")
  case True
  then have "p = q" "l = 0" by auto
  then show ?thesis using assms
    by (simp add: tp1_def transform_cases apply_Insert apply_Delete)
next
  case False
  then show ?thesis using assms unfolding tp1_def
    apply (simp add: transform_cases apply_Insert apply_Delete)
    apply (auto simp: nat_add_distrib nat_diff_distrib min_def not_less drop_take ac_simps)
    done
qed

lemma tp1_delete_delete:
  assumes "p + k \<le> length s" "q + l \<le> length s"
  shows "tp1 s (Delete i u t (int p) (int k)) (Delete j v t' (int q) (int l))"
  using assms unfolding tp1_def
  apply (simp add: transform_cases apply_Delete Let_def)
  apply (auto simp: nat_add_distrib nat_diff_distrib min_def not_less drop_take ac_simps
      diff_le_eq of_nat_add[symmetric] simp del: of_nat_add)
  done

lemma tp1_valid:
  assumes "valid_on s a" "valid_on s b" "\<not> tp1_conflict a b"
  shows "tp1 s a b"
proof (cases a)
  case A: (Insert i u t p x)
  with assms(1) obtain p' where p: "p = int p'" "p' \<le> length s"
    by (auto elim: nonneg_int_cases)
  show ?thesis
  proof (cases b)
    case B: (Insert j v t' q y)
    with assms(2) obtain q' where q: "q = int q'" "q' \<le> length s"
      by (auto elim: nonneg_int_cases)
    from assms(3) have "p' \<noteq> q' \<or> u \<noteq> v"
      using A B p q by auto
    then show ?thesis
      unfolding A B p q using p(2) q(2) by (rule_tac tp1_insert_insert)
  next
    case B: (Delete j v t' q l)
    with assms(2) obtain q' l' where q: "q = int q'" "l = int l'" "q' + l' \<le> length s"
      by (auto elim!: nonneg_int_cases)
    from assms(3) have "\<not> (q' < p' \<and> p' < q' + l')"
      using A B p q by auto
    then show ?thesis
      unfolding A B p q using p(2) q(3) by (rule_tac tp1_insert_delete)
  qed
next
  case A: (Delete i u t p k)
  with assms(1) obtain p' k' where p: "p = int p'" "k = int k'" "p' + k' \<le> length s"
    by (auto elim!: nonneg_int_cases)
  show ?thesis
  proof (cases b)
    case B: (Insert j v t' q y)
    with assms(2) obtain q' where q: "q = int q'" "q' \<le> length s"
      by (auto elim: nonneg_int_cases)
    from assms(3) have "\<not> (p' < q' \<and> q' < p' + k')"
      using A B p q by auto
    then have "tp1 s (Insert j v t' (int q') y) (Delete i u t (int p') (int k'))"
      using p(3) q(2) by (rule_tac tp1_insert_delete)
    then show ?thesis
      unfolding A B p q by (rule tp1_sym)
  next
    case B: (Delete j v t' q l)
    with assms(2) obtain q' l' where q: "q = int q'" "l = int l'" "q' + l' \<le> length s"
      by (auto elim!: nonneg_int_cases)
    show ?thesis
      unfolding A B p q using p(3) q(3) by (rule tp1_delete_delete)
  qed
qed

text \<open>
  Claim C1, as stated, fails on its own example. On the base \<open>''abcdef''\<close>, with A
  deleting four units from position 1 and B inserting \<open>''X''\<close> at position 3, both
  operations are valid; A followed by B transformed gives \<open>''aXf''\<close>, but B followed
  by A transformed gives \<open>''af''\<close>: the delete has been widened over the inserted text.
\<close>

theorem tp1_insert_inside_delete_counterexample:
  "valid_on ''abcdef'' (Delete ''a1'' ''A'' 0 1 4)
   \<and> valid_on ''abcdef'' (Insert ''b1'' ''B'' 0 3 ''X'')
   \<and> apply_op (apply_op ''abcdef'' (Delete ''a1'' ''A'' 0 1 4))
        (transform (Insert ''b1'' ''B'' 0 3 ''X'') (Delete ''a1'' ''A'' 0 1 4)) = ''aXf''
   \<and> apply_op (apply_op ''abcdef'' (Insert ''b1'' ''B'' 0 3 ''X''))
        (transform (Delete ''a1'' ''A'' 0 1 4) (Insert ''b1'' ''B'' 0 3 ''X'')) = ''af''"
  by (simp add: transform_cases apply_Insert apply_Delete)

text \<open>
  Claim C1, amended: two operations valid on the same base text converge after mutual
  transformation whenever neither is an insert strictly inside the other's delete range
  and they are not two inserts at one position under one user id. In the example of the
  claim, applying the delete and then the transformed insert yields \<open>''aXf''\<close>.
\<close>

theorem tp1_convergence_without_conflict:
  "(valid_on s a \<and> valid_on s b \<and> \<not> tp1_conflict a b \<longrightarrow>
      apply_op (apply_op s a) (transform b a) = apply_op (apply_op s b) (transform a b))
   \<and> apply_op (apply_op ''abcdef'' (Delete ''a1'' ''A'' 0 1 4))
        (transform (Insert ''b1'' ''B'' 0 3 ''X'') (Delete ''a1'' ''A'' 0 1 4)) = ''aXf''"
proof (intro conjI impI)
  assume "valid_on s a \<and> valid_on s b \<and> \<not> tp1_conflict a b"
  then have "tp1 s a b" by (simp add: tp1_valid)
  then show "apply_op (apply_op s a) (transform b a) = apply_op (apply_op s b) (transform a b)"
    by (simp add: tp1_def)
next
  show "apply_op (apply_op ''abcdef'' (Delete ''a1'' ''A'' 0 1 4))
        (transform (Insert ''b1'' ''B'' 0 3 ''X'') (Delete ''a1'' ''A'' 0 1 4)) = ''aXf''"
    by (simp add: transform_cases apply_Insert apply_Delete)
qed

text \<open>
  The theorem at the overlapping deletes of the specification's fourth scenario: on
  \<open>''abcdefgh''\<close>, deleting \<open>(2, 3)\<close> and \<open>(3, 3)\<close> converge to \<open>''abgh''\<close>.
\<close>

theorem tp1_convergence_witness:
  "valid_on ''abcdefgh'' (Delete ''a1'' ''A'' 0 2 3)
   \<and> valid_on ''abcdefgh'' (Delete ''b1'' ''B'' 0 3 3)
   \<and> \<not> tp1_conflict (Delete ''a1'' ''A'' 0 2 3) (Delete ''b1'' ''B'' 0 3 3)
   \<and> apply_op (apply_op ''abcdefgh'' (Delete ''a1'' ''A'' 0 2 3))
        (transform (Delete ''b1'' ''B'' 0 3 3) (Delete ''a1'' ''A'' 0 2 3)) = ''abgh''
   \<and> apply_op (apply_op ''abcdefgh'' (Delete ''b1'' ''B'' 0 3 3))
        (transform (Delete ''a1'' ''A'' 0 2 3) (Delete ''b1'' ''B'' 0 3 3)) = ''abgh''"
  using tp1_convergence_without_conflict
    [of "''abcdefgh''" "Delete ''a1'' ''A'' 0 2 3" "Delete ''b1'' ''B'' 0 3 3"]
  by (simp add: transform_cases apply_Delete)

section \<open>Applying an operation\<close>

text \<open>
  Claim C2, as stated, fails: \<^verbatim>\<open>apply\<close> has no failure. Where the specification's
  \<open>apply\<close> answers \<open>OutOfRange\<close>, the code returns a text: an insert at position 5
  into \<open>''ab''\<close> appends, and a delete of five units from position 4 of \<open>''abcdef''\<close>
  removes the two units that are there.
\<close>

theorem apply_out_of_range_counterexample:
  "apply_spec ''ab'' (Insert ''o1'' ''A'' 0 5 ''X'') = Inl OutOfRange
   \<and> apply_op ''ab'' (Insert ''o1'' ''A'' 0 5 ''X'') = ''abX''
   \<and> apply_spec ''abcdef'' (Delete ''o2'' ''A'' 0 4 5) = Inl OutOfRange
   \<and> apply_op ''abcdef'' (Delete ''o2'' ''A'' 0 4 5) = ''abcd''"
  by (simp add: apply_Insert apply_Delete)

text \<open>
  Claim C2, amended: \<^verbatim>\<open>apply\<close> always returns a text. In range, an insert splits
  the text at its position and places its text between the halves, and a delete removes
  \<open>length\<close> units starting at its position. An insert whose position is past the end
  appends its text; a delete that runs past the end removes what lies from its position
  to the end.
\<close>

theorem apply_total_clamped:
  "(0 \<le> p \<and> p \<le> int (length s) \<longrightarrow>
      apply_op s (Insert i u t p x) = take (nat p) s @ x @ drop (nat p) s)
   \<and> (int (length s) < p \<longrightarrow> apply_op s (Insert i u t p x) = s @ x)
   \<and> (0 \<le> q \<and> 0 \<le> l \<and> q + l \<le> int (length s) \<longrightarrow>
        apply_op s (Delete j v t' q l) = take (nat q) s @ drop (nat q + nat l) s
        \<and> int (length (apply_op s (Delete j v t' q l))) = int (length s) - l)
   \<and> (0 \<le> q \<and> 0 \<le> l \<and> int (length s) < q + l \<longrightarrow>
        apply_op s (Delete j v t' q l) = take (nat q) s)"
  by (auto simp: apply_Insert apply_Delete nat_add_distrib)

theorem apply_total_clamped_witness:
  "(0::int) \<le> 1 \<and> 1 \<le> int (length ''ab'')
   \<and> apply_op ''ab'' (Insert ''o1'' ''A'' 0 1 ''X'') = ''aXb''
   \<and> int (length ''ab'') < 5
   \<and> apply_op ''ab'' (Insert ''o1'' ''A'' 0 5 ''X'') = ''abX''
   \<and> (0::int) \<le> 1 \<and> (0::int) \<le> 4 \<and> 1 + 4 \<le> int (length ''abcdef'')
   \<and> apply_op ''abcdef'' (Delete ''o2'' ''A'' 0 1 4) = ''af''
   \<and> int (length ''abcdef'') < 4 + 5
   \<and> apply_op ''abcdef'' (Delete ''o2'' ''A'' 0 4 5) = ''abcd''"
proof -
  note inst = apply_total_clamped
    [where i = "''o1''" and u = "''A''" and t = 0 and x = "''X''"
       and j = "''o2''" and v = "''A''" and t' = 0]
  have h1: "(0::int) \<le> 1 \<and> 1 \<le> int (length ''ab'')" by simp
  with inst [of 1 "''ab''"]
  have "apply_op ''ab'' (Insert ''o1'' ''A'' 0 1 ''X'')
          = take (nat 1) ''ab'' @ ''X'' @ drop (nat 1) ''ab''"
    by blast
  then have 1: "apply_op ''ab'' (Insert ''o1'' ''A'' 0 1 ''X'') = ''aXb''" by simp
  have h2: "int (length ''ab'') < 5" by simp
  with inst [of 5 "''ab''"]
  have "apply_op ''ab'' (Insert ''o1'' ''A'' 0 5 ''X'') = ''ab'' @ ''X''"
    by blast
  then have 2: "apply_op ''ab'' (Insert ''o1'' ''A'' 0 5 ''X'') = ''abX''" by simp
  have h3: "(0::int) \<le> 1 \<and> (0::int) \<le> 4 \<and> 1 + 4 \<le> int (length ''abcdef'')" by simp
  with inst [of _ "''abcdef''" 1 4]
  have "apply_op ''abcdef'' (Delete ''o2'' ''A'' 0 1 4)
          = take (nat 1) ''abcdef'' @ drop (nat 1 + nat 4) ''abcdef''"
    by blast
  then have 3: "apply_op ''abcdef'' (Delete ''o2'' ''A'' 0 1 4) = ''af''" by simp
  have h4: "(0::int) \<le> 4 \<and> (0::int) \<le> 5 \<and> int (length ''abcdef'') < 4 + 5" by simp
  with inst [of _ "''abcdef''" 4 5]
  have "apply_op ''abcdef'' (Delete ''o2'' ''A'' 0 4 5) = take (nat 4) ''abcdef''"
    by blast
  then have 4: "apply_op ''abcdef'' (Delete ''o2'' ''A'' 0 4 5) = ''abcd''" by simp
  from h1 h2 h3 h4 1 2 3 4 show ?thesis by blast
qed

section \<open>The tie-break of two inserts\<close>

text \<open>
  Claim C4: two inserts at the same position with distinct user ids. Transforming
  \<open>a\<close> against \<open>b\<close> shifts \<open>a\<close> right by the length of \<open>b\<close>'s text when
  \<open>b\<close>'s user id is the smaller in the lexicographic order, and leaves \<open>a\<close> as it
  is otherwise; the two orders then converge on every text the position is valid on.
  On \<open>''ab''\<close>, with \<open>''X''\<close> by user \<open>''A''\<close> and \<open>''Y''\<close> by user \<open>''B''\<close> at
  position 1, both orders give \<open>''aXYb''\<close>.
\<close>

theorem insert_insert_tie_break:
  "(u \<noteq> v \<longrightarrow>
      transform (Insert i u t p x) (Insert j v t' p y) =
        (if v < u then Insert i u t (p + int (length y)) x else Insert i u t p x))
   \<and> (u \<noteq> v \<and> 0 \<le> p \<and> p \<le> int (length s) \<longrightarrow>
        apply_op (apply_op s (Insert i u t p x))
          (transform (Insert j v t' p y) (Insert i u t p x))
        = apply_op (apply_op s (Insert j v t' p y))
          (transform (Insert i u t p x) (Insert j v t' p y)))
   \<and> apply_op (apply_op ''ab'' (Insert ''a1'' ''A'' 0 1 ''X''))
        (transform (Insert ''b1'' ''B'' 0 1 ''Y'') (Insert ''a1'' ''A'' 0 1 ''X'')) = ''aXYb''
   \<and> apply_op (apply_op ''ab'' (Insert ''b1'' ''B'' 0 1 ''Y''))
        (transform (Insert ''a1'' ''A'' 0 1 ''X'') (Insert ''b1'' ''B'' 0 1 ''Y'')) = ''aXYb''"
proof (intro conjI impI)
  assume "u \<noteq> v \<and> 0 \<le> p \<and> p \<le> int (length s)"
  then have "tp1 s (Insert i u t p x) (Insert j v t' p y)"
    by (intro tp1_valid) simp_all
  then show "apply_op (apply_op s (Insert i u t p x))
          (transform (Insert j v t' p y) (Insert i u t p x))
        = apply_op (apply_op s (Insert j v t' p y))
          (transform (Insert i u t p x) (Insert j v t' p y))"
    by (simp add: tp1_def)
qed (simp_all add: transform_cases apply_Insert)

theorem insert_insert_tie_break_witness:
  "''A'' \<noteq> ''B'' \<and> (0::int) \<le> 1 \<and> 1 \<le> int (length ''ab'')
   \<and> transform (Insert ''a1'' ''A'' 0 1 ''X'') (Insert ''b1'' ''B'' 0 1 ''Y'')
       = Insert ''a1'' ''A'' 0 1 ''X''
   \<and> transform (Insert ''b1'' ''B'' 0 1 ''Y'') (Insert ''a1'' ''A'' 0 1 ''X'')
       = Insert ''b1'' ''B'' 0 2 ''Y''
   \<and> apply_op (apply_op ''ab'' (Insert ''a1'' ''A'' 0 1 ''X''))
        (transform (Insert ''b1'' ''B'' 0 1 ''Y'') (Insert ''a1'' ''A'' 0 1 ''X''))
     = apply_op (apply_op ''ab'' (Insert ''b1'' ''B'' 0 1 ''Y''))
        (transform (Insert ''a1'' ''A'' 0 1 ''X'') (Insert ''b1'' ''B'' 0 1 ''Y''))"
  using insert_insert_tie_break [of "''A''" "''B''" "''a1''" 0 1 "''X''" "''b1''" 0 "''Y''" "''ab''"]
    insert_insert_tie_break [of "''B''" "''A''" "''b1''" 0 1 "''Y''" "''a1''" 0 "''X''" "''ab''"]
  by simp

section \<open>Composition\<close>

text \<open>
  Claim C5: \<^verbatim>\<open>compose\<close> returns an operation exactly for an insert of \<open>x\<close> at
  \<open>p\<close> followed by an insert at \<open>p + length x\<close> by the same user, giving the insert
  of \<open>x @ y\<close> at \<open>p\<close>, and for two deletes at one position by the same user, giving
  the delete of the summed length; and then, for operations with non-negative position
  and length and every text the composite is valid on, applying the two in turn equals
  applying the composite.
\<close>

theorem compose_sound_and_exact:
  "(compose a b = Some c \<and> well_formed a \<and> well_formed b \<and> valid_on s c \<longrightarrow>
      apply_op (apply_op s a) b = apply_op s c)
   \<and> (compose a b = Some c \<longleftrightarrow>
        (\<exists>i u t p x j t' y.
            a = Insert i u t p x \<and> b = Insert j u t' (p + int (length x)) y
            \<and> c = Insert i u t p (x @ y))
        \<or> (\<exists>i u t p k j t' m.
            a = Delete i u t p k \<and> b = Delete j u t' p m \<and> c = Delete i u t p (k + m)))"
proof (intro conjI impI)
  assume "compose a b = Some c \<and> well_formed a \<and> well_formed b \<and> valid_on s c"
  then show "apply_op (apply_op s a) b = apply_op s c"
    by (cases a; cases b)
       (auto simp: apply_Insert apply_Delete nat_add_distrib min_def ac_simps split: if_splits)
next
  show "compose a b = Some c \<longleftrightarrow>
        (\<exists>i u t p x j t' y.
            a = Insert i u t p x \<and> b = Insert j u t' (p + int (length x)) y
            \<and> c = Insert i u t p (x @ y))
        \<or> (\<exists>i u t p k j t' m.
            a = Delete i u t p k \<and> b = Delete j u t' p m \<and> c = Delete i u t p (k + m))"
    by (cases a; cases b) auto
qed

theorem compose_sound_and_exact_witness:
  "compose (Insert ''o1'' ''A'' 0 0 ''he'') (Insert ''o2'' ''A'' 1 2 ''llo'')
     = Some (Insert ''o1'' ''A'' 0 0 ''hello'')
   \<and> well_formed (Insert ''o1'' ''A'' 0 0 ''he'')
   \<and> well_formed (Insert ''o2'' ''A'' 1 2 ''llo'')
   \<and> valid_on [] (Insert ''o1'' ''A'' 0 0 ''hello'')
   \<and> apply_op (apply_op [] (Insert ''o1'' ''A'' 0 0 ''he'')) (Insert ''o2'' ''A'' 1 2 ''llo'')
       = ''hello''
   \<and> apply_op [] (Insert ''o1'' ''A'' 0 0 ''hello'') = ''hello''"
  using compose_sound_and_exact
    [of "Insert ''o1'' ''A'' 0 0 ''he''" "Insert ''o2'' ''A'' 1 2 ''llo''"
        "Insert ''o1'' ''A'' 0 0 ''hello''" "[]"]
  by (simp add: apply_Insert)

section \<open>Transforming against a queue\<close>

text \<open>
  Claim C6: \<^verbatim>\<open>transformAgainst\<close> is the left fold of \<^verbatim>\<open>transform\<close> over the queue,
  first element first.
\<close>

theorem transformAgainst_is_foldl:
  "transformAgainst opn qs = foldl transform opn qs"
  by (induction qs arbitrary: opn) simp_all

section \<open>What a transformation leaves alone\<close>

text \<open>
  Claim C10: \<^verbatim>\<open>transform a b\<close> is of the variant of \<open>a\<close> and has its id, user id
  and timestamp; of an insert only the position can change, the text stays; of a delete
  only the position and the length can change.
\<close>

theorem transform_frame:
  "(case a of
      Insert i u t p x \<Rightarrow> \<exists>p'. transform a b = Insert i u t p' x
    | Delete i u t p l \<Rightarrow> \<exists>p' l'. transform a b = Delete i u t p' l')"
  by (cases a; cases b) (simp_all add: transform_cases Let_def)

section \<open>The change detector\<close>

text \<open>
  Claim C7: \<^verbatim>\<open>detectChange\<close> returns nothing for equal texts; for a longer new text
  an insert at \<open>caret - (length new - length old)\<close> whose text is the substring of the
  new text from that position to the caret, which is the slice of that many units when
  the position is not negative and the caret is inside the new text; for a shorter new
  text a delete of \<open>length old - length new\<close> units at the caret; and nothing for
  different texts of equal length.
\<close>

theorem detectChange_cases:
  "(old = new \<longrightarrow> detectChange old new caret u fresh now = None)
   \<and> (length old < length new \<longrightarrow>
        detectChange old new caret u fresh now =
          Some (Insert fresh u now (caret - (int (length new) - int (length old)))
                  (substring new (caret - (int (length new) - int (length old))) caret)))
   \<and> (length old < length new \<and> 0 \<le> caret - (int (length new) - int (length old))
        \<and> caret \<le> int (length new) \<longrightarrow>
        detectChange old new caret u fresh now =
          Some (Insert fresh u now (caret - (int (length new) - int (length old)))
                  (take (length new - length old)
                     (drop (nat (caret - (int (length new) - int (length old)))) new))))
   \<and> (length new < length old \<longrightarrow>
        detectChange old new caret u fresh now =
          Some (Delete fresh u now caret (int (length old) - int (length new))))
   \<and> (length new = length old \<longrightarrow> detectChange old new caret u fresh now = None)"
  by (auto simp: detectChange_def Let_def createInsertOperation_def createDeleteOperation_def
        substring_slice nat_diff_distrib)

theorem detectChange_cases_witness:
  "detectChange ''ab'' ''ab'' 2 ''A'' ''o1'' 7 = None
   \<and> length ''ab'' < length ''aXYb'' \<and> (0::int) \<le> 3 - (int (length ''aXYb'') - int (length ''ab''))
   \<and> 3 \<le> int (length ''aXYb'')
   \<and> detectChange ''ab'' ''aXYb'' 3 ''A'' ''o1'' 7 = Some (Insert ''o1'' ''A'' 7 1 ''XY'')
   \<and> length ''ad'' < length ''abcd''
   \<and> detectChange ''abcd'' ''ad'' 1 ''A'' ''o1'' 7 = Some (Delete ''o1'' ''A'' 7 1 2)
   \<and> length ''ab'' = length ''ac''
   \<and> detectChange ''ab'' ''ac'' 2 ''A'' ''o1'' 7 = None"
  using detectChange_cases [of "''ab''" "''ab''" 2 "''A''" "''o1''" 7]
    detectChange_cases [of "''ab''" "''aXYb''" 3 "''A''" "''o1''" 7]
    detectChange_cases [of "''abcd''" "''ad''" 1 "''A''" "''o1''" 7]
    detectChange_cases [of "''ab''" "''ac''" 2 "''A''" "''o1''" 7]
  by (simp add: substring_def)

section \<open>The relay: committing an operation\<close>

lemma server_apply_eq: "server_apply c opn = apply_op c opn"
  by (cases opn) (simp_all add: server_apply_def apply_op_def applyInsert_def applyDelete_def)

lemma clamp_take: "take (nat (clamp 0 (int (length c)) p)) c = take (nat p) c"
  by (auto simp: clamp_def min_def max_def)

lemma clamp_drop: "drop (nat (clamp 0 (int (length c)) p)) c = drop (nat p) c"
  by (auto simp: clamp_def min_def max_def)

text \<open>
  Claim C3, as stated, fails: the handler neither moves a delete left nor drops
  anything. A zero-length delete at position 9 of \<open>''abcdef''\<close>, which the
  specification's store drops, is counted and logged (version and log length go from 1
  to 2); a delete of five units from position 4, which the specification's store moves
  to position 1 so that \<open>''a''\<close> remains, is cut off at the end of the text and
  leaves \<open>''abcd''\<close>.
\<close>

theorem submit_clamp_counterexample:
  "submit_spec example_document (Delete ''o2'' ''s1'' 5 9 0) = (''abcdef'', 1)
   \<and> committed (fst (on_operation example_socket 6 (example_relay, example_connection)
         (Delete ''o2'' ''s1'' 5 9 0))) ''d'' = Some (''abcdef'', 2, 2)
   \<and> submit_spec example_document (Delete ''o3'' ''s1'' 5 4 5) = (''a'', 2)
   \<and> committed (fst (on_operation example_socket 6 (example_relay, example_connection)
         (Delete ''o3'' ''s1'' 5 4 5))) ''d'' = Some (''abcd'', 2, 2)"
  by (simp add: submit_spec_def clamp_def example_document_def example_relay_def
      example_connection_def example_socket_def committed_def on_operation_def truthy_def
      getDocument_def server_apply_eq apply_Delete Let_def)

text \<open>
  Claim C3, amended: for every operation of a connection that has joined a document,
  in range or not, the handler cuts the content at the position clamped to
  \<open>[0, len]\<close> (an insert places its text there; a delete removes what lies between
  the clamped position and the clamped \<open>position + length\<close>), adds one to the
  version, appends the operation stamped with the new version and the clock to the
  log, and sends it with the new version to every other member. Nothing is dropped.
\<close>

theorem operation_always_committed:
  "currentDocumentId c = Some d \<and> d \<noteq> [] \<and> documents s d = Some doc \<longrightarrow>
     on_operation sock now (s, c) opn =
       ((s\<lparr>documents := (documents s)(d \<mapsto> doc\<lparr>
             content :=
               (let n = int (length (content doc)) in
                case opn of
                  Insert i u t p x \<Rightarrow>
                    take (nat (clamp 0 n p)) (content doc) @ x
                      @ drop (nat (clamp 0 n p)) (content doc)
                | Delete i u t p l \<Rightarrow>
                    take (nat (clamp 0 n p)) (content doc)
                      @ drop (nat (clamp 0 n (p + l))) (content doc)),
             version := version doc + 1,
             operations := operations doc @
               [\<lparr>logged = opn, serverVersion = version doc + 1, serverTimestamp = now\<rparr>]\<rparr>)\<rparr>, c),
        map (\<lambda>(socketId, _). (socketId, OperationMsg opn (version doc + 1)))
          (filter (\<lambda>(socketId, _). socketId \<noteq> socket_id sock) (users doc)))"
  by (cases opn)
     (auto simp: on_operation_def truthy_def getDocument_def Let_def server_apply_eq
        apply_Insert apply_Delete clamp_take clamp_drop broadcastToDocument_def)

theorem operation_always_committed_witness:
  "currentDocumentId example_connection = Some ''d'' \<and> ''d'' \<noteq> []
   \<and> documents example_relay ''d'' = Some example_document
   \<and> committed (fst (on_operation example_socket 6 (example_relay, example_connection)
         (Insert ''o2'' ''s1'' 5 99 ''X''))) ''d'' = Some (''abcdefX'', 2, 2)
   \<and> snd (on_operation example_socket 6 (example_relay, example_connection)
         (Insert ''o2'' ''s1'' 5 99 ''X'')) = [(''s2'', OperationMsg (Insert ''o2'' ''s1'' 5 99 ''X'') 2)]"
proof -
  have h: "currentDocumentId example_connection = Some ''d'' \<and> ''d'' \<noteq> []
      \<and> documents example_relay ''d'' = Some example_document"
    by (simp add: example_connection_def example_relay_def)
  from operation_always_committed
    [of example_connection "''d''" example_relay example_document example_socket 6
        "Insert ''o2'' ''s1'' 5 99 ''X''"] h
  have "on_operation example_socket 6 (example_relay, example_connection)
          (Insert ''o2'' ''s1'' 5 99 ''X'') =
       ((example_relay\<lparr>documents := (documents example_relay)(''d'' \<mapsto> example_document\<lparr>
             content :=
               (let n = int (length (content example_document)) in
                case Insert ''o2'' ''s1'' 5 99 ''X'' of
                  Insert i u t p x \<Rightarrow>
                    take (nat (clamp 0 n p)) (content example_document) @ x
                      @ drop (nat (clamp 0 n p)) (content example_document)
                | Delete i u t p l \<Rightarrow>
                    take (nat (clamp 0 n p)) (content example_document)
                      @ drop (nat (clamp 0 n (p + l))) (content example_document)),
             version := version example_document + 1,
             operations := operations example_document @
               [\<lparr>logged = Insert ''o2'' ''s1'' 5 99 ''X'',
                 serverVersion = version example_document + 1, serverTimestamp = 6\<rparr>]\<rparr>)\<rparr>,
         example_connection),
        map (\<lambda>(socketId, _). (socketId, OperationMsg (Insert ''o2'' ''s1'' 5 99 ''X'')
               (version example_document + 1)))
          (filter (\<lambda>(socketId, _). socketId \<noteq> socket_id example_socket)
             (users example_document)))"
    by blast
  then have "committed (fst (on_operation example_socket 6 (example_relay, example_connection)
         (Insert ''o2'' ''s1'' 5 99 ''X''))) ''d'' = Some (''abcdefX'', 2, 2)
     \<and> snd (on_operation example_socket 6 (example_relay, example_connection)
         (Insert ''o2'' ''s1'' 5 99 ''X'')) = [(''s2'', OperationMsg (Insert ''o2'' ''s1'' 5 99 ''X'') 2)]"
    by (simp add: committed_def example_document_def example_socket_def clamp_def)
  with h show ?thesis by blast
qed

section \<open>The relay: the invariant of a document\<close>

lemma relay_inv_initial: "relay_inv initial_relay"
  by (simp add: relay_inv_def initial_relay_def)

lemma doc_inv_users: "doc_inv (doc\<lparr>users := us\<rparr>) = doc_inv doc"
  by (simp add: doc_inv_def)

lemma getDocument_inv:
  assumes "relay_inv s" "getDocument (documents s) d = (docs, doc)"
  shows "relay_inv (s\<lparr>documents := docs\<rparr>) \<and> doc_inv doc \<and> docs d = Some doc"
  using assms
  by (auto simp: getDocument_def relay_inv_def doc_inv_def Let_def
      split: option.splits if_splits)

lemma removeUser_inv: "relay_inv s \<Longrightarrow> relay_inv (removeUser s d sid)"
  by (auto simp: removeUser_def relay_inv_def doc_inv_users split: option.splits)

lemma addUser_inv:
  assumes "relay_inv s" "addUser s d sock = (s', usr, doc)"
  shows "relay_inv s'"
proof -
  obtain docs doc0 where g: "getDocument (documents s) d = (docs, doc0)"
    by (cases "getDocument (documents s) d")
  from getDocument_inv[OF assms(1) g]
  have i: "relay_inv (s\<lparr>documents := docs\<rparr>)" "doc_inv doc0"
    by auto
  from assms(2) g have "documents s' = docs(d \<mapsto> doc)" "doc_inv doc"
    using i(2) by (auto simp: addUser_def Let_def doc_inv_users)
  with i(1) show ?thesis
    by (auto simp: relay_inv_def)
qed

lemma on_join_document_inv:
  assumes "relay_inv s"
  shows "relay_inv (fst (fst (on_join_document sock (s, c) d)))"
proof -
  define s1 where "s1 = (if truthy (currentDocumentId c)
                then removeUser s (the (currentDocumentId c)) (socket_id sock) else s)"
  have 1: "relay_inv s1" using assms by (simp add: s1_def removeUser_inv)
  obtain docs doc0 where g: "getDocument (documents s1) d = (docs, doc0)"
    by (cases "getDocument (documents s1) d")
  from getDocument_inv[OF 1 g] have 2: "relay_inv (s1\<lparr>documents := docs\<rparr>)" by simp
  obtain s2 usr doc where a: "addUser (s1\<lparr>documents := docs\<rparr>) d sock = (s2, usr, doc)"
    by (cases "addUser (s1\<lparr>documents := docs\<rparr>) d sock")
  from addUser_inv[OF 2 a] have "relay_inv s2" .
  moreover have "fst (fst (on_join_document sock (s, c) d)) = s2"
    using g a by (simp add: on_join_document_def s1_def[symmetric] Let_def)
  ultimately show ?thesis by simp
qed

lemma on_operation_inv:
  assumes "relay_inv s"
  shows "relay_inv (fst (fst (on_operation sock now (s, c) opn)))"
proof (cases "truthy (currentDocumentId c)")
  case False
  then show ?thesis using assms by (simp add: on_operation_def)
next
  case True
  obtain docs doc where g: "getDocument (documents s) (the (currentDocumentId c)) = (docs, doc)"
    by (cases "getDocument (documents s) (the (currentDocumentId c))")
  from getDocument_inv[OF assms g]
  have i: "relay_inv (s\<lparr>documents := docs\<rparr>)" "doc_inv doc"
    by auto
  have "doc_inv (doc\<lparr>content := server_apply (content doc) opn, version := version doc + 1,
       operations := operations doc @
         [\<lparr>logged = opn, serverVersion = version doc + 1, serverTimestamp = now\<rparr>]\<rparr>)"
    using i(2) by (simp add: doc_inv_def server_apply_eq)
  with i(1) show ?thesis using True g
    by (simp add: on_operation_def Let_def relay_inv_def)
qed

lemma on_cursor_position_inv:
  assumes "relay_inv s"
  shows "relay_inv (fst (fst (on_cursor_position sock (s, c) pos)))"
proof (cases "\<not> truthy (currentDocumentId c) \<or> currentUser c = None")
  case True
  then show ?thesis using assms by (auto simp add: on_cursor_position_def)
next
  case False
  obtain docs doc where g: "getDocument (documents s) (the (currentDocumentId c)) = (docs, doc)"
    by (cases "getDocument (documents s) (the (currentDocumentId c))")
  from getDocument_inv[OF assms g]
  have i: "relay_inv (s\<lparr>documents := docs\<rparr>)" "doc_inv doc"
    by auto
  then show ?thesis using False g
    by (auto simp add: on_cursor_position_def Let_def relay_inv_def doc_inv_users
        split: option.splits)
qed

lemma on_disconnect_inv:
  assumes "relay_inv s"
  shows "relay_inv (fst (fst (on_disconnect sock (s, c))))"
proof (cases "truthy (currentDocumentId c)")
  case False
  then show ?thesis using assms by (simp add: on_disconnect_def)
next
  case True
  define s1 where "s1 = removeUser s (the (currentDocumentId c)) (socket_id sock)"
  have 1: "relay_inv s1" using assms by (simp add: s1_def removeUser_inv)
  obtain docs doc where g: "getDocument (documents s1) (the (currentDocumentId c)) = (docs, doc)"
    by (cases "getDocument (documents s1) (the (currentDocumentId c))")
  from getDocument_inv[OF 1 g] have "relay_inv (s1\<lparr>documents := docs\<rparr>)" by simp
  then show ?thesis using True g
    by (simp add: on_disconnect_def Let_def s1_def[symmetric])
qed

text \<open>
  Claim C8: in every document the relay holds, the version is the length of the log
  and replaying the log from the empty string gives the content. This is so when the
  relay starts, a document that \<^verbatim>\<open>getDocument\<close> creates has it, and each of the
  four handlers keeps it.
\<close>

theorem relay_invariant_preserved:
  "relay_inv initial_relay
   \<and> doc_inv (snd (getDocument Map.empty d))
   \<and> (relay_inv s \<longrightarrow> relay_inv (fst (fst (handle sock now (s, c) msg))))"
  by (cases msg)
     (simp_all add: relay_inv_initial handle_def on_join_document_inv on_operation_inv
        on_cursor_position_inv on_disconnect_inv getDocument_def doc_inv_def Let_def)

text \<open>
  The theorem along a run from the start: a connection joins document \<open>''d''\<close> and
  inserts \<open>''hi''\<close>; the document then holds \<open>''hi''\<close> at version 1 with a log of
  length 1, and the invariant holds.
\<close>

theorem relay_invariant_preserved_witness:
  "relay_inv initial_relay
   \<and> relay_inv (fst (fst (handle example_socket 1 (initial_relay, initial_connection)
        (JoinDocument ''d''))))
   \<and> relay_inv (fst (fst (handle example_socket 2
        (fst (handle example_socket 1 (initial_relay, initial_connection) (JoinDocument ''d'')))
        (OperationFrom (Insert ''o1'' ''s1'' 0 0 ''hi'')))))
   \<and> committed (fst (handle example_socket 2
        (fst (handle example_socket 1 (initial_relay, initial_connection) (JoinDocument ''d'')))
        (OperationFrom (Insert ''o1'' ''s1'' 0 0 ''hi'')))) ''d'' = Some (''hi'', 1, 1)"
proof -
  let ?j = "handle example_socket 1 (initial_relay, initial_connection) (JoinDocument ''d'')"
  note step = relay_invariant_preserved [THEN conjunct2, THEN conjunct2, THEN mp]
  have 0: "relay_inv initial_relay"
    by (rule relay_invariant_preserved [THEN conjunct1])
  have 1: "relay_inv (fst (fst ?j))"
    using 0 by (rule step)
  have "relay_inv (fst (fst (handle example_socket 2 (fst (fst ?j), snd (fst ?j))
        (OperationFrom (Insert ''o1'' ''s1'' 0 0 ''hi'')))))"
    using 1 by (rule step)
  then have 2: "relay_inv (fst (fst (handle example_socket 2 (fst ?j)
        (OperationFrom (Insert ''o1'' ''s1'' 0 0 ''hi'')))))"
    by simp
  have 3: "committed (fst (handle example_socket 2 (fst ?j)
        (OperationFrom (Insert ''o1'' ''s1'' 0 0 ''hi'')))) ''d'' = Some (''hi'', 1, 1)"
    by (simp add: handle_def on_join_document_def on_operation_def initial_relay_def
        initial_connection_def example_socket_def truthy_def getDocument_def addUser_def
        removeUser_def Let_def committed_def server_apply_eq apply_Insert)
  from 0 1 2 3 show ?thesis by blast
qed

section \<open>The relay: a connection that has not joined\<close>

text \<open>
  Claim C9: an operation from a connection that has sent no \<^verbatim>\<open>join-document\<close> is
  dropped: the relay state, and with it the document map and every document, is
  returned as it was, and no message is emitted. The connection is then in its initial
  state, where \<^verbatim>\<open>currentDocumentId\<close> is \<^verbatim>\<open>null\<close>; only the join handler assigns
  that variable, so every other message leaves such a connection, and the relay, as
  they were.
\<close>

theorem operation_before_join_dropped:
  "on_operation sock now (s, initial_connection) opn = ((s, initial_connection), [])
   \<and> (currentDocumentId c = None \<longrightarrow>
        handle sock now (s, c) (OperationFrom opn) = ((s, c), []))
   \<and> (currentDocumentId c = None \<and> \<not> is_JoinDocument msg \<longrightarrow>
        handle sock now (s, c) msg = ((s, c), []))"
  by (cases msg)
     (auto simp: on_operation_def initial_connection_def truthy_def handle_def
        on_cursor_position_def on_disconnect_def)

theorem operation_before_join_dropped_witness:
  "currentDocumentId initial_connection = None
   \<and> \<not> is_JoinDocument (OperationFrom (Insert ''o9'' ''s3'' 0 0 ''X''))
   \<and> handle \<lparr>socket_id = ''s3'', query_userName = None\<rparr> 4 (example_relay, initial_connection)
        (OperationFrom (Insert ''o9'' ''s3'' 0 0 ''X''))
      = ((example_relay, initial_connection), [])"
proof -
  have h: "currentDocumentId initial_connection = None
      \<and> \<not> is_JoinDocument (OperationFrom (Insert ''o9'' ''s3'' 0 0 ''X''))"
    by (simp add: initial_connection_def)
  with operation_before_join_dropped
    [of "\<lparr>socket_id = ''s3'', query_userName = None\<rparr>" 4 example_relay
        "Insert ''o9'' ''s3'' 0 0 ''X''" initial_connection
        "OperationFrom (Insert ''o9'' ''s3'' 0 0 ''X'')"]
  show ?thesis by blast
qed

end
